theory Spec2Isabelle
  imports Complex_Main "HOL-Library.Sublist" "HOL-Library.Monad_Syntax"
begin

section \<open>Go strings as byte sequences\<close>

text \<open>
  A Go \<^verbatim>\<open>string\<close> is a sequence of bytes, and \<^verbatim>\<open>len\<close> and slicing count bytes.
  It is modelled as \<^typ>\<open>string\<close> (a list of 8-bit characters); \<^verbatim>\<open>s[a:b]\<close> is
  \<^term>\<open>take\<close> and \<^term>\<open>drop\<close>. The functions below are the ones of package
  \<^verbatim>\<open>strings\<close> that the transcoder calls, with the names they have there.
\<close>

abbreviation NL :: char where "NL \<equiv> CHR 0x0A"
abbreviation CR :: char where "CR \<equiv> CHR 0x0D"
abbreviation TAB :: char where "TAB \<equiv> CHR 0x09"

definition HasPrefix :: "string \<Rightarrow> string \<Rightarrow> bool" where
  "HasPrefix s p = prefix p s"

definition HasSuffix :: "string \<Rightarrow> string \<Rightarrow> bool" where
  "HasSuffix s p = suffix p s"

definition TrimPrefix :: "string \<Rightarrow> string \<Rightarrow> string" where
  "TrimPrefix s p = (if HasPrefix s p then drop (length p) s else s)"

definition TrimSuffix :: "string \<Rightarrow> string \<Rightarrow> string" where
  "TrimSuffix s p = (if HasSuffix s p then take (length s - length p) s else s)"

text \<open>
  \<^verbatim>\<open>TrimLeft\<close>, \<^verbatim>\<open>TrimRight\<close> and \<^verbatim>\<open>Trim\<close> remove the characters of a cutset. Every
  cutset of the transcoder is ASCII, where Go removes single bytes.
\<close>

definition TrimLeft :: "string \<Rightarrow> string \<Rightarrow> string" where
  "TrimLeft s cutset = dropWhile (\<lambda>c. c \<in> set cutset) s"

definition TrimRight :: "string \<Rightarrow> string \<Rightarrow> string" where
  "TrimRight s cutset = rev (dropWhile (\<lambda>c. c \<in> set cutset) (rev s))"

definition Trim :: "string \<Rightarrow> string \<Rightarrow> string" where
  "Trim s cutset = TrimRight (TrimLeft s cutset) cutset"

text \<open>
  \<^verbatim>\<open>strings.Split(s, sep)\<close> for a separator of one byte (the transcoder splits at a
  newline and at a pipe): the pieces between the separators, at least one piece.
\<close>

function Split :: "string \<Rightarrow> char \<Rightarrow> string list" where
  "Split s sep =
     takeWhile (\<lambda>c. c \<noteq> sep) s #
       (case dropWhile (\<lambda>c. c \<noteq> sep) s of [] \<Rightarrow> [] | _ # r \<Rightarrow> Split r sep)"
  by pat_completeness auto
termination
proof (relation "measure (\<lambda>(s, sep). length s)")
  show "wf (measure (\<lambda>(s, sep). length s))" by simp
next
  fix s :: string and sep x21 x22
  assume "dropWhile (\<lambda>c. c \<noteq> sep) s = x21 # x22"
  then have "length s \<ge> length (x21 # x22)"
    by (metis length_dropWhile_le)
  then show "((x22, sep), (s, sep)) \<in> measure (\<lambda>(s, sep). length s)" by simp
qed

declare Split.simps [simp del]

fun Join :: "string list \<Rightarrow> string \<Rightarrow> string" where
  "Join [] sep = []"
| "Join [x] sep = x"
| "Join (x # y # zs) sep = x @ sep @ Join (y # zs) sep"

text \<open>\<^verbatim>\<open>strings.Repeat\<close> panics on a negative count; the panic is the value \<open>None\<close>.\<close>

definition Repeat :: "string \<Rightarrow> int \<Rightarrow> string option" where
  "Repeat s n = (if n < 0 then None else Some (concat (replicate (nat n) s)))"


subsection \<open>TrimSpace\<close>

text \<open>
  \<^verbatim>\<open>strings.TrimSpace\<close> removes leading and trailing white space as Unicode defines it.
  On the bytes of the string these are the six ASCII characters tab, newline, vertical
  tab, form feed, carriage return and space, and the UTF-8 encodings of U+0085, U+00A0,
  U+1680, U+2000 to U+200A, U+2028, U+2029, U+202F, U+205F and U+3000. A byte that is
  not part of such an encoding decodes to a rune that is not a space and stops the trim.
\<close>

definition isAsciiSpace :: "char \<Rightarrow> bool" where
  "isAsciiSpace c = (c \<in> set [CHR 0x09, CHR 0x0A, CHR 0x0B, CHR 0x0C, CHR 0x0D, CHR 0x20])"

definition unicodeSpaces :: "string list" where
  "unicodeSpaces =
     [[CHR 0xC2, CHR 0x85], [CHR 0xC2, CHR 0xA0], [CHR 0xE1, CHR 0x9A, CHR 0x80],
      [CHR 0xE2, CHR 0x80, CHR 0x80], [CHR 0xE2, CHR 0x80, CHR 0x81],
      [CHR 0xE2, CHR 0x80, CHR 0x82], [CHR 0xE2, CHR 0x80, CHR 0x83],
      [CHR 0xE2, CHR 0x80, CHR 0x84], [CHR 0xE2, CHR 0x80, CHR 0x85],
      [CHR 0xE2, CHR 0x80, CHR 0x86], [CHR 0xE2, CHR 0x80, CHR 0x87],
      [CHR 0xE2, CHR 0x80, CHR 0x88], [CHR 0xE2, CHR 0x80, CHR 0x89],
      [CHR 0xE2, CHR 0x80, CHR 0x8A], [CHR 0xE2, CHR 0x80, CHR 0xA8],
      [CHR 0xE2, CHR 0x80, CHR 0xA9], [CHR 0xE2, CHR 0x80, CHR 0xAF],
      [CHR 0xE2, CHR 0x81, CHR 0x9F], [CHR 0xE3, CHR 0x80, CHR 0x80]]"

definition leadingSpace :: "string \<Rightarrow> nat" where
  "leadingSpace s =
     (if s \<noteq> [] \<and> isAsciiSpace (hd s) then 1
      else case find (\<lambda>w. prefix w s) unicodeSpaces of Some w \<Rightarrow> length w | None \<Rightarrow> 0)"

definition trailingSpace :: "string \<Rightarrow> nat" where
  "trailingSpace s =
     (if s \<noteq> [] \<and> isAsciiSpace (last s) then 1
      else case find (\<lambda>w. suffix w s) unicodeSpaces of Some w \<Rightarrow> length w | None \<Rightarrow> 0)"

lemma leadingSpace_le: "leadingSpace s \<le> length s"
  by (auto simp: leadingSpace_def Suc_le_eq find_Some_iff prefix_length_le
      split: option.splits)

lemma trailingSpace_le: "trailingSpace s \<le> length s"
  by (auto simp: trailingSpace_def Suc_le_eq find_Some_iff suffix_length_le
      split: option.splits)

lemma drop_leadingSpace_less:
  "leadingSpace s \<noteq> 0 \<Longrightarrow> length (drop (leadingSpace s) s) < length s"
  using leadingSpace_le [of s] by simp

lemma take_trailingSpace_less:
  "trailingSpace s \<noteq> 0 \<Longrightarrow> length (take (length s - trailingSpace s) s) < length s"
  using trailingSpace_le [of s] by simp

function TrimLeftSpace :: "string \<Rightarrow> string" where
  "TrimLeftSpace s =
     (if leadingSpace s = 0 then s else TrimLeftSpace (drop (leadingSpace s) s))"
  by pat_completeness auto
termination
  by (relation "measure length") (simp_all add: drop_leadingSpace_less del: length_drop)

function TrimRightSpace :: "string \<Rightarrow> string" where
  "TrimRightSpace s =
     (if trailingSpace s = 0 then s
      else TrimRightSpace (take (length s - trailingSpace s) s))"
  by pat_completeness auto
termination
  by (relation "measure length") (simp_all add: take_trailingSpace_less del: length_take)

declare TrimLeftSpace.simps [simp del] TrimRightSpace.simps [simp del]

definition TrimSpace :: "string \<Rightarrow> string" where
  "TrimSpace s = TrimRightSpace (TrimLeftSpace s)"

section \<open>The frontmatter splitter\<close>





section \<open>The document tree\<close>

text \<open>
  \<^verbatim>\<open>ADFNode\<close> and \<^verbatim>\<open>ADFMark\<close> of \<^verbatim>\<open>internal/jira/types.go\<close>. An attribute map
  \<^verbatim>\<open>map[string]any\<close> is an association list read with \<^term>\<open>map_of\<close>; its values are
  the dynamic types that reach the transcoder: what \<^verbatim>\<open>json.Unmarshal\<close> produces (nil, bool,
  float64, string, slices and maps) and the \<^verbatim>\<open>int\<close> that the parser stores as a heading
  level. A float64 that comes from JSON is finite, hence a rational number. A nil slice
  and an empty slice are both the empty list (the code only takes their length).
\<close>

datatype attr =
    ANull
  | ABool bool
  | AInt int
  | AFloat rat
  | AString string
  | AList "attr list"
  | AMap "(string \<times> attr) list"

datatype ADFMark = ADFMark (MarkType: string) (MarkAttrs: "(string \<times> attr) list")

datatype ADFNode =
  ADFNode (Type: string) (Content: "ADFNode list") (Text: string)
    (Attrs: "(string \<times> attr) list") (Marks: "ADFMark list")

text \<open>
  The idiom \<^verbatim>\<open>if v, ok := attrs[key]; ok { if s, ok := v.(string); ok { x = s } }\<close> with
  \<^verbatim>\<open>x\<close> initially empty.
\<close>

definition attrString :: "(string \<times> attr) list \<Rightarrow> string \<Rightarrow> string" where
  "attrString as key = (case map_of as key of Some (AString s) \<Rightarrow> s | _ \<Rightarrow> [])"

section \<open>Inline parsing\<close>

text \<open>
  The regular expressions of \<^verbatim>\<open>parseInline\<close> are \<^verbatim>\<open>\[([^\]]+)\]\(([^)]+)\)\<close> for a
  link and, for the other four, an opening literal, a group \<^verbatim>\<open>([^c]+)\<close> and a closing
  literal that starts with \<^verbatim>\<open>c\<close>. Go's \<^verbatim>\<open>regexp\<close> returns the leftmost match. At a
  given start the group can only be the longest run of bytes other than \<^verbatim>\<open>c\<close>: after a
  shorter run the next byte is not \<^verbatim>\<open>c\<close> and the closing literal cannot follow. A
  negated class matches any rune, a newline too, and no byte of a multi-byte rune is
  ASCII, so runs of runes and runs of bytes agree.

  A matcher takes the text at a candidate start and returns the index list \<^verbatim>\<open>loc\<close> of
  \<^verbatim>\<open>FindStringSubmatchIndex\<close> relative to that start: start and end of the match, then
  start and end of each group.
\<close>

definition runLen :: "char \<Rightarrow> string \<Rightarrow> nat" where
  "runLen stop s = length (takeWhile (\<lambda>c. c \<noteq> stop) s)"

definition reDelimited :: "string \<Rightarrow> char \<Rightarrow> string \<Rightarrow> string \<Rightarrow> nat list option" where
  "reDelimited opn stop cls s =
     (let n = runLen stop (drop (length opn) s) in
      if prefix opn s \<and> 0 < n \<and> prefix cls (drop (length opn + n) s)
      then Some [0, length opn + n + length cls, length opn, length opn + n]
      else None)"

definition reLink :: "string \<Rightarrow> nat list option" where
  "reLink s =
     (let n = runLen (CHR '']'') (drop 1 s);
          m = runLen (CHR '')'') (drop (n + 3) s)
      in
      if prefix ''['' s \<and> 0 < n \<and> prefix '']('' (drop (1 + n) s) \<and>
         0 < m \<and> prefix '')'' (drop (n + 3 + m) s)
      then Some [0, n + m + 4, 1, 1 + n, n + 3, n + 3 + m]
      else None)"

text \<open>The leftmost match: the first offset at which the matcher succeeds.\<close>

fun findFrom :: "(string \<Rightarrow> nat list option) \<Rightarrow> string \<Rightarrow> nat \<Rightarrow> nat list option" where
  "findFrom re [] i = map_option (map ((+) i)) (re [])"
| "findFrom re (c # cs) i =
     (case re (c # cs) of
        Some loc \<Rightarrow> Some (map ((+) i) loc)
      | None \<Rightarrow> findFrom re cs (Suc i))"

definition FindStringSubmatchIndex ::
  "(string \<Rightarrow> nat list option) \<Rightarrow> string \<Rightarrow> nat list option" where
  "FindStringSubmatchIndex re s = findFrom re s 0"

text \<open>The strings \<^verbatim>\<open>remaining[loc[j]:loc[j+1]]\<close> that \<^verbatim>\<open>parseInline\<close> collects in \<^verbatim>\<open>match\<close>.\<close>

fun submatches :: "string \<Rightarrow> nat list \<Rightarrow> string list" where
  "submatches s (a # b # loc) = take (b - a) (drop a s) # submatches s loc"
| "submatches s loc = []"

text \<open>The slice \<^verbatim>\<open>patterns\<close>: each entry a regular expression and its \<^verbatim>\<open>markFn\<close>.\<close>

definition patterns ::
  "((string \<Rightarrow> nat list option) \<times> (string list \<Rightarrow> ADFNode list)) list" where
  "patterns =
     [(reLink, \<lambda>match.
         [ADFNode ''text'' [] (match ! 1) []
            [ADFMark ''link'' [(''href'', AString (match ! 2))]]]),
      (reDelimited ''**'' (CHR ''*'') ''**'', \<lambda>match.
         [ADFNode ''text'' [] (match ! 1) [] [ADFMark ''strong'' []]]),
      (reDelimited ''~~'' (CHR ''~'') ''~~'', \<lambda>match.
         [ADFNode ''text'' [] (match ! 1) [] [ADFMark ''strike'' []]]),
      (reDelimited ''`'' (CHR ''`'') ''`'', \<lambda>match.
         [ADFNode ''text'' [] (match ! 1) [] [ADFMark ''code'' []]]),
      (reDelimited ''*'' (CHR ''*'') ''*'', \<lambda>match.
         [ADFNode ''text'' [] (match ! 1) [] [ADFMark ''em'' []]])]"

text \<open>
  The inner loop of \<^verbatim>\<open>parseInline\<close> over the patterns. Its state is \<^verbatim>\<open>earliestIdx\<close>
  and, once a pattern has been chosen, \<^verbatim>\<open>earliestPattern\<close> with \<^verbatim>\<open>earliestLoc\<close>
  (\<open>None\<close> for the initial \<^verbatim>\<open>earliestPattern = -1\<close>).
\<close>

type_synonym earliest = "nat \<times> (nat \<times> nat list) option"

fun scanPatterns ::
  "string \<Rightarrow> nat \<Rightarrow>
   ((string \<Rightarrow> nat list option) \<times> (string list \<Rightarrow> ADFNode list)) list \<Rightarrow>
   earliest \<Rightarrow> earliest" where
  "scanPatterns remaining k [] st = st"
| "scanPatterns remaining k (p # ps) st =
     scanPatterns remaining (Suc k) ps
       (case FindStringSubmatchIndex (fst p) remaining of
          Some loc \<Rightarrow> if hd loc < fst st then (hd loc, Some (k, loc)) else st
        | None \<Rightarrow> st)"

definition earliestMatch :: "string \<Rightarrow> (nat \<times> nat list) option" where
  "earliestMatch remaining =
     snd (scanPatterns remaining 0 patterns (length remaining, None))"

subsection \<open>Every match is inside the text and not empty\<close>

lemma reDelimited_SomeD:
  assumes "reDelimited opn stop cls s = Some loc"
  shows "\<exists>n. 0 < n \<and> loc = [0, length opn + n + length cls, length opn, length opn + n] \<and>
             length opn + n + length cls \<le> length s"
proof -
  let ?n = "runLen stop (drop (length opn) s)"
  from assms have p: "prefix opn s" and n: "0 < ?n"
    and c: "prefix cls (drop (length opn + ?n) s)"
    and loc: "loc = [0, length opn + ?n + length cls, length opn, length opn + ?n]"
    by (auto simp: reDelimited_def Let_def split: if_splits)
  have "?n \<le> length s - length opn"
    unfolding runLen_def by (metis length_takeWhile_le length_drop)
  with n have "length opn + ?n \<le> length s" by simp
  moreover from c have "length cls \<le> length s - (length opn + ?n)"
    by (metis prefix_length_le length_drop)
  ultimately have "length opn + ?n + length cls \<le> length s" by simp
  with n loc show ?thesis by blast
qed

lemma reLink_SomeD:
  assumes "reLink s = Some loc"
  shows "\<exists>n m. 0 < n \<and> 0 < m \<and> loc = [0, n + m + 4, 1, 1 + n, n + 3, n + 3 + m] \<and>
             n + m + 4 \<le> length s"
proof -
  let ?n = "runLen (CHR '']'') (drop 1 s)"
  let ?m = "runLen (CHR '')'') (drop (?n + 3) s)"
  from assms have n: "0 < ?n" and m: "0 < ?m"
    and c: "prefix '')'' (drop (?n + 3 + ?m) s)"
    and loc: "loc = [0, ?n + ?m + 4, 1, 1 + ?n, ?n + 3, ?n + 3 + ?m]"
    by (auto simp: reLink_def Let_def split: if_splits)
  from c have "1 \<le> length s - (?n + 3 + ?m)"
    using prefix_length_le by fastforce
  then have "?n + ?m + 4 \<le> length s" by simp
  with n m loc show ?thesis by blast
qed

lemma findFrom_SomeD:
  "findFrom re s i = Some loc \<Longrightarrow>
     \<exists>j loc'. j \<le> length s \<and> re (drop j s) = Some loc' \<and> loc = map ((+) (i + j)) loc' \<and>
        (\<forall>j'<j. re (drop j' s) = None)"
proof (induction s arbitrary: i)
  case Nil
  then show ?case by auto
next
  case (Cons c cs)
  show ?case
  proof (cases "re (c # cs)")
    case (Some l)
    with Cons.prems have "loc = map ((+) i) l" by simp
    with Some show ?thesis by (intro exI [of _ 0]) simp
  next
    case None
    with Cons.prems have "findFrom re cs (Suc i) = Some loc" by simp
    from Cons.IH [OF this] obtain j loc' where j: "j \<le> length cs"
      "re (drop j cs) = Some loc'" "loc = map ((+) (Suc i + j)) loc'"
      "\<forall>j'<j. re (drop j' cs) = None" by blast
    have "\<forall>j'<Suc j. re (drop j' (c # cs)) = None"
      using None j(4) by (auto simp: less_Suc_eq_0_disj)
    with j(1-3) show ?thesis
      by (intro exI [of _ "Suc j"] exI [of _ loc']) simp
  qed
qed

lemma findFrom_NoneD:
  "findFrom re s i = None \<Longrightarrow> j \<le> length s \<Longrightarrow> re (drop j s) = None"
proof (induction s arbitrary: i j)
  case Nil
  then show ?case by auto
next
  case (Cons c cs)
  then show ?case by (cases j) (auto split: option.splits)
qed

lemma patterns_loc:
  assumes "p \<in> set patterns" "fst p s = Some loc"
  shows "2 \<le> length loc \<and> hd loc = 0 \<and> 0 < loc ! 1 \<and> loc ! 1 \<le> length s"
  using assms unfolding patterns_def
  by (auto dest!: reDelimited_SomeD reLink_SomeD)

lemma Find_patterns_loc:
  assumes "p \<in> set patterns" "FindStringSubmatchIndex (fst p) s = Some loc"
  shows "2 \<le> length loc \<and> hd loc < loc ! 1 \<and> loc ! 1 \<le> length s"
proof -
  from findFrom_SomeD [OF assms(2) [unfolded FindStringSubmatchIndex_def]]
  obtain j loc' where j: "j \<le> length s" "fst p (drop j s) = Some loc'"
    "loc = map ((+) j) loc'" by auto
  from patterns_loc [OF assms(1) j(2)]
  have l: "2 \<le> length loc'" "hd loc' = 0" "0 < loc' ! 1" "loc' ! 1 \<le> length s - j"
    by simp_all
  from l(1) have ne: "loc' \<noteq> []" by auto
  have "hd loc = j + hd loc'" using j(3) ne by (simp add: hd_map)
  moreover have "loc ! 1 = j + loc' ! 1" using j(3) l(1) by simp
  ultimately show ?thesis using l j(1,3) by simp
qed

lemma scanPatterns_sel:
  "snd (scanPatterns r k ps st) = Some (j, loc) \<Longrightarrow>
     snd st = Some (j, loc) \<or>
     (\<exists>p\<in>set ps. FindStringSubmatchIndex (fst p) r = Some loc)"
proof (induction ps arbitrary: k st)
  case Nil
  then show ?case by simp
next
  case (Cons p ps)
  from Cons.IH [OF Cons.prems [simplified]] show ?case
    by (auto split: option.splits if_splits)
qed

lemma earliestMatch_loc:
  assumes "earliestMatch r = Some (k, loc)"
  shows "2 \<le> length loc \<and> hd loc < loc ! 1 \<and> loc ! 1 \<le> length r"
proof -
  from scanPatterns_sel [OF assms [unfolded earliestMatch_def]]
  obtain p where "p \<in> set patterns" "FindStringSubmatchIndex (fst p) r = Some loc"
    by auto
  then show ?thesis by (rule Find_patterns_loc)
qed

text \<open>
  The outer loop of \<^verbatim>\<open>parseInline\<close>, \<^verbatim>\<open>for remaining != ""\<close>: the nodes it appends. It
  terminates because a match is never empty.
\<close>

function inlineLoop :: "string \<Rightarrow> ADFNode list" where
  "inlineLoop remaining =
     (if remaining = [] then []
      else case earliestMatch remaining of
        None \<Rightarrow> [ADFNode ''text'' [] remaining [] []]
      | Some (k, loc) \<Rightarrow>
          (if 0 < hd loc then [ADFNode ''text'' [] (take (hd loc) remaining) [] []] else []) @
          snd (patterns ! k) (submatches remaining loc) @
          inlineLoop (drop (loc ! 1) remaining))"
  by pat_completeness auto
termination
proof (relation "measure length")
  show "wf (measure length)" by simp
next
  fix remaining :: string and x2 k loc
  assume "remaining \<noteq> []" "earliestMatch remaining = Some x2" "(k, loc) = x2"
  then have "earliestMatch remaining = Some (k, loc)" by simp
  from earliestMatch_loc [OF this] have "0 < loc ! 1" by simp
  with \<open>remaining \<noteq> []\<close> show "(drop (loc ! 1) remaining, remaining) \<in> measure length"
    by simp
qed

declare inlineLoop.simps [simp del]

definition parseInline :: "string \<Rightarrow> ADFNode list" where
  "parseInline text =
     (if text = [] then [ADFNode ''text'' [] [] [] []]
      else let nodes = inlineLoop text in
        if nodes = [] then [ADFNode ''text'' [] text [] []] else nodes)"

section \<open>The preservation marker: encoding\<close>

text \<open>
  \<^verbatim>\<open>base64.StdEncoding\<close>: the standard alphabet with padding. Bytes are read as numbers
  below 256; shifts and masks are written as division and remainder.
\<close>

definition encodeStd :: string where
  "encodeStd = ''ABCDEFGHIJKLMNOPQRSTUVWXYZabcdefghijklmnopqrstuvwxyz0123456789+/''"

fun EncodeToString :: "string \<Rightarrow> string" where
  "EncodeToString (a # b # c # src) =
     (let x = of_char a :: nat; y = of_char b :: nat; z = of_char c :: nat in
      [encodeStd ! (x div 4), encodeStd ! ((x mod 4) * 16 + y div 16),
       encodeStd ! ((y mod 16) * 4 + z div 64), encodeStd ! (z mod 64)])
     @ EncodeToString src"
| "EncodeToString [a, b] =
     (let x = of_char a :: nat; y = of_char b :: nat in
      [encodeStd ! (x div 4), encodeStd ! ((x mod 4) * 16 + y div 16),
       encodeStd ! ((y mod 16) * 4), CHR ''=''])"
| "EncodeToString [a] =
     (let x = of_char a :: nat in
      [encodeStd ! (x div 4), encodeStd ! ((x mod 4) * 16), CHR ''='', CHR ''=''])"
| "EncodeToString [] = []"

text \<open>The constants and the description table of \<^verbatim>\<open>marshal.go\<close>.\<close>

definition preserveStart :: string where
  "preserveStart = ''<!-- PRESERVED:''"

definition preserveData :: string where
  "preserveData = ''<!-- data:''"

definition preserveEnd :: string where
  "preserveEnd = ''<!-- /PRESERVED -->''"

definition preservedDescriptions :: "(string \<times> string) list" where
  "preservedDescriptions =
     [(''mediaSingle'', ''Inline image''),
      (''mediaGroup'', ''Image group''),
      (''media'', ''Attachment''),
      (''panel'', ''Info/warning panel''),
      (''expand'', ''Expand/collapse section''),
      (''nestedExpand'', ''Nested expand section''),
      (''extension'', ''JIRA extension''),
      (''bodiedExtension'', ''JIRA macro''),
      (''inlineExtension'', ''Inline JIRA macro''),
      (''multiBodiedExtension'', ''Multi-body JIRA macro''),
      (''layoutSection'', ''Layout columns''),
      (''layoutColumn'', ''Layout column''),
      (''decisionList'', ''Decision list''),
      (''decisionItem'', ''Decision item''),
      (''taskList'', ''Task checklist''),
      (''taskItem'', ''Task checkbox''),
      (''status'', ''Status lozenge''),
      (''date'', ''Date''),
      (''placeholder'', ''Placeholder'')]"

text \<open>
  The description of a node: \<^verbatim>\<open>preservedDescriptions[node.Type]\<close>, a missing key reading
  as the empty string, and the raw type when that is empty.
\<close>

definition markerDesc :: "ADFNode \<Rightarrow> string" where
  "markerDesc node =
     (let desc = (case map_of preservedDescriptions (Type node) of
                    Some d \<Rightarrow> d | None \<Rightarrow> [])
      in if desc = [] then Type node else desc)"

text \<open>The em dash of the two format strings, in UTF-8.\<close>

definition emDash :: string where
  "emDash = [CHR 0xE2, CHR 0x80, CHR 0x94]"

text \<open>
  \<^verbatim>\<open>writePreservedMarker\<close>: the text it appends to the builder. \<^verbatim>\<open>encoding/json\<close> is Go's
  standard library and no code of this repository: \<^verbatim>\<open>json.Marshal\<close> on a node is the
  parameter \<open>marshal\<close>, \<open>None\<close> when it returns an error.
\<close>

definition writePreservedMarker :: "(ADFNode \<Rightarrow> string option) \<Rightarrow> ADFNode \<Rightarrow> string" where
  "writePreservedMarker marshal node =
     (let desc = markerDesc node in
      case marshal node of
        None \<Rightarrow>
          ''<!-- PRESERVED: '' @ desc @ '' '' @ emDash @
            '' Could not serialize for round-trip -->'' @ [NL]
      | Some jsonBytes \<Rightarrow>
          let encoded = EncodeToString jsonBytes in
          preserveStart @ '' '' @ desc @ '' '' @ emDash @
            '' Do not edit this block; it is restored on push to JIRA. -->'' @ [NL] @
          preserveData @ encoded @ '' -->'' @ [NL] @
          preserveEnd @ [NL])"

section \<open>The forward renderer\<close>

text \<open>\<^verbatim>\<open>fmt.Sprintf("%d", n)\<close> for the list numbers, which are positive.\<close>

function itoa :: "nat \<Rightarrow> string" where
  "itoa n = (if n < 10 then [char_of (48 + n)]
             else itoa (n div 10) @ [char_of (48 + n mod 10)])"
  by pat_completeness auto
termination
  by (relation "measure id") auto

declare itoa.simps [simp del]

fun applyMark :: "string \<Rightarrow> ADFMark \<Rightarrow> string" where
  "applyMark text mark =
     (if MarkType mark = ''strong'' then ''**'' @ text @ ''**''
      else if MarkType mark = ''em'' then ''*'' @ text @ ''*''
      else if MarkType mark = ''code'' then ''`'' @ text @ ''`''
      else if MarkType mark = ''strike'' then ''~~'' @ text @ ''~~''
      else if MarkType mark = ''link'' then
        ''['' @ text @ '']('' @ attrString (MarkAttrs mark) ''href'' @ '')''
      else if MarkType mark = ''underline'' then ''_'' @ text @ ''_''
      else text)"

text \<open>\<^verbatim>\<open>applyMarks\<close>: the loop over the marks, each wrapping the text so far.\<close>

fun applyMarks :: "string \<Rightarrow> ADFMark list \<Rightarrow> string" where
  "applyMarks text [] = text"
| "applyMarks text (mark # marks) = applyMarks (applyMark text mark) marks"

definition indentPrefix :: "string \<Rightarrow> string" where
  "indentPrefix pfx = replicate (length pfx) (CHR '' '')"

definition padRow :: "string list \<Rightarrow> nat \<Rightarrow> string list" where
  "padRow row cols = row @ replicate (cols - length row) []"

text \<open>
  The loop of \<^verbatim>\<open>renderTable\<close> on the text of a header cell:
  \<^verbatim>\<open>for HasPrefix(text, "**") && HasSuffix(text, "**") && len(text) > 4\<close>.
\<close>

function stripBold :: "string \<Rightarrow> string" where
  "stripBold text =
     (if HasPrefix text ''**'' \<and> HasSuffix text ''**'' \<and> 4 < length text
      then stripBold (take (length text - 4) (drop 2 text))
      else text)"
  by pat_completeness auto
termination
  by (relation "measure length") auto

declare stripBold.simps [simp del]

text \<open>
  The second half of \<^verbatim>\<open>renderTable\<close>: the rows collected as lists of cell texts are
  printed, the first one followed by the separator line.
\<close>

definition tableLine :: "string list \<Rightarrow> string" where
  "tableLine cells = ''| '' @ Join cells '' | '' @ '' |'' @ [NL]"

definition printTable :: "string list list \<Rightarrow> string" where
  "printTable rows =
     (if rows = [] then []
      else
        let maxCols = fold (\<lambda>row m. if m < length row then length row else m) rows 0 in
        tableLine (padRow (hd rows) maxCols) @
        tableLine (replicate maxCols ''---'') @
        concat (map (\<lambda>row. tableLine (padRow row maxCols)) (tl rows)) @
        [NL])"

text \<open>
  The heading level: \<^verbatim>\<open>2\<close> unless \<^verbatim>\<open>attrs["level"]\<close> is a float64, then \<^verbatim>\<open>int(lf)\<close>,
  which truncates towards zero. \<^verbatim>\<open>strings.Repeat\<close> panics on a negative count. Outside
  the range of \<^verbatim>\<open>int\<close> the conversion is implementation-specific (the smallest or the
  largest \<^verbatim>\<open>int\<close>), and \<^verbatim>\<open>Repeat\<close> panics or exhausts memory: no result either.
\<close>

definition headingLevel :: "(string \<times> attr) list \<Rightarrow> int" where
  "headingLevel as =
     (case map_of as ''level'' of
        Some (AFloat lf) \<Rightarrow> (if 0 \<le> lf then \<lfloor>lf\<rfloor> else \<lceil>lf\<rceil>)
      | _ \<Rightarrow> 2)"

definition headingMarks :: "(string \<times> attr) list \<Rightarrow> string option" where
  "headingMarks as =
     (if 2 ^ 63 \<le> headingLevel as then None else Repeat ''#'' (headingLevel as))"

definition preservedTags :: "string list" where
  "preservedTags =
     [''mediaGroup'', ''mediaSingle'', ''media'', ''panel'', ''expand'',
      ''nestedExpand'', ''extension'', ''bodiedExtension'', ''inlineExtension'',
      ''layoutSection'', ''layoutColumn'', ''decisionList'', ''decisionItem'',
      ''taskList'', ''taskItem'', ''status'', ''date'', ''placeholder'',
      ''multiBodiedExtension'']"

text \<open>
  \<^verbatim>\<open>renderNode\<close> and the loops it runs over children. Each function returns the text it
  appends to the builder, \<open>None\<close> when it panics. The functions that loop over
  \<^verbatim>\<open>node.Content\<close> take that list:
  \<^item> \<open>renderChildren\<close> and \<open>renderInlineChildren\<close> are the two functions of these names;
  \<^item> \<open>renderOrdered\<close> is the loop of the case \<^verbatim>\<open>orderedList\<close>, \<open>i\<close> the index;
  \<^item> \<open>renderItem\<close> is the loop of the case \<^verbatim>\<open>listItem\<close>, and \<open>renderNested\<close> its inner
    loop over the items of a nested list;
  \<^item> \<open>tableRows\<close>, \<open>tableCells\<close> and \<open>cellBuf\<close> are the three nested loops of
    \<^verbatim>\<open>renderTable\<close> that collect \<^verbatim>\<open>rows\<close>, \<^verbatim>\<open>cells\<close> and \<^verbatim>\<open>cellBuf\<close>. The variable
    \<^verbatim>\<open>isHeaderRow\<close> of \<^verbatim>\<open>renderTable\<close> is written and never read, and is left out.
\<close>

function (sequential) renderNode :: "(ADFNode \<Rightarrow> string option) \<Rightarrow> ADFNode \<Rightarrow> string \<Rightarrow> string option"
  and renderChildren :: "(ADFNode \<Rightarrow> string option) \<Rightarrow> ADFNode list \<Rightarrow> string \<Rightarrow> string option"
  and renderInlineChildren :: "(ADFNode \<Rightarrow> string option) \<Rightarrow> ADFNode list \<Rightarrow> string option"
  and renderOrdered :: "(ADFNode \<Rightarrow> string option) \<Rightarrow> nat \<Rightarrow> ADFNode list \<Rightarrow> string option"
  and renderItem :: "(ADFNode \<Rightarrow> string option) \<Rightarrow> nat \<Rightarrow> ADFNode list \<Rightarrow> string \<Rightarrow> string option"
  and renderNested ::
    "(ADFNode \<Rightarrow> string option) \<Rightarrow> nat \<Rightarrow> bool \<Rightarrow> ADFNode list \<Rightarrow> string \<Rightarrow> string option"
  and tableRows :: "(ADFNode \<Rightarrow> string option) \<Rightarrow> ADFNode list \<Rightarrow> string list list option"
  and tableCells :: "(ADFNode \<Rightarrow> string option) \<Rightarrow> ADFNode list \<Rightarrow> string list option"
  and cellBuf :: "(ADFNode \<Rightarrow> string option) \<Rightarrow> ADFNode list \<Rightarrow> string option"
where
  "renderNode marshal (ADFNode type content text as marks) listPrefix =
     (if type = ''doc'' then renderChildren marshal content []
      else if type = ''paragraph'' then
        do { s \<leftarrow> renderInlineChildren marshal content; Some (s @ [NL, NL]) }
      else if type = ''heading'' then
        do { h \<leftarrow> headingMarks as;
             s \<leftarrow> renderInlineChildren marshal content;
             Some (h @ '' '' @ s @ [NL, NL]) }
      else if type = ''bulletList'' then renderChildren marshal content ''- ''
      else if type = ''orderedList'' then renderOrdered marshal 0 content
      else if type = ''listItem'' then renderItem marshal 0 content listPrefix
      else if type = ''codeBlock'' then
        Some (''```'' @ attrString as ''language'' @ [NL] @ concat (map Text content) @
              [NL] @ ''```'' @ [NL, NL])
      else if type = ''blockquote'' then
        do { inner \<leftarrow> renderChildren marshal content [];
             Some (concat (map (\<lambda>line. ''> '' @ line @ [NL])
                            (Split (TrimRight inner [NL]) NL)) @ [NL]) }
      else if type = ''rule'' then Some (''---'' @ [NL, NL])
      else if type = ''table'' then
        (if content = [] then Some []
         else do { rows \<leftarrow> tableRows marshal content; Some (printTable rows) })
      else if type = ''text'' then Some (applyMarks text marks)
      else if type = ''hardBreak'' then Some [NL]
      else if type = ''mention'' then Some (''@'' @ attrString as ''text'')
      else if type = ''inlineCard'' then Some (''[link]('' @ attrString as ''url'' @ '')'')
      else if type = ''emoji'' then
        Some (if attrString as ''text'' = [] then attrString as ''shortName''
              else attrString as ''text'')
      else if type \<in> set preservedTags then
        Some (writePreservedMarker marshal (ADFNode type content text as marks))
      else renderChildren marshal content [])"
| "renderChildren marshal [] listPrefix = Some []"
| "renderChildren marshal (child # content) listPrefix =
     do { a \<leftarrow> renderNode marshal child listPrefix;
          b \<leftarrow> renderChildren marshal content listPrefix;
          Some (a @ b) }"
| "renderInlineChildren marshal [] = Some []"
| "renderInlineChildren marshal (child # content) =
     do { a \<leftarrow> renderNode marshal child [];
          b \<leftarrow> renderInlineChildren marshal content;
          Some (a @ b) }"
| "renderOrdered marshal i [] = Some []"
| "renderOrdered marshal i (child # content) =
     do { a \<leftarrow> renderNode marshal child (itoa (i + 1) @ ''. '');
          b \<leftarrow> renderOrdered marshal (i + 1) content;
          Some (a @ b) }"
| "renderItem marshal i [] listPrefix = Some []"
| "renderItem marshal i (ADFNode type content text as marks # rest) listPrefix =
     do { a \<leftarrow>
            (if i = 0 \<and> type = ''paragraph'' then
               do { s \<leftarrow> renderInlineChildren marshal content;
                    Some (listPrefix @ s @ [NL]) }
             else if type = ''bulletList'' \<or> type = ''orderedList'' then
               renderNested marshal 0 (type = ''orderedList'') content (indentPrefix listPrefix)
             else renderNode marshal (ADFNode type content text as marks) listPrefix);
          b \<leftarrow> renderItem marshal (i + 1) rest listPrefix;
          Some (a @ b) }"
| "renderNested marshal j ordered [] indented = Some []"
| "renderNested marshal j ordered (nested # rest) indented =
     do { a \<leftarrow> renderNode marshal nested
                 (indented @ (if ordered then itoa (j + 1) @ ''. '' else ''- ''));
          b \<leftarrow> renderNested marshal (j + 1) ordered rest indented;
          Some (a @ b) }"
| "tableRows marshal [] = Some []"
| "tableRows marshal (ADFNode type content text as marks # rest) =
     (if type \<noteq> ''tableRow'' then tableRows marshal rest
      else do { cells \<leftarrow> tableCells marshal content;
                rows \<leftarrow> tableRows marshal rest;
                Some (cells # rows) })"
| "tableCells marshal [] = Some []"
| "tableCells marshal (ADFNode type content text as marks # rest) =
     do { buf \<leftarrow> cellBuf marshal content;
          cells \<leftarrow> tableCells marshal rest;
          Some ((if type = ''tableHeader'' then stripBold (TrimSpace buf) else TrimSpace buf)
                # cells) }"
| "cellBuf marshal [] = Some []"
| "cellBuf marshal (ADFNode type content text as marks # rest) =
     do { a \<leftarrow> renderInlineChildren marshal content;
          b \<leftarrow> cellBuf marshal rest;
          Some (a @ b) }"

  by pat_completeness auto
termination
  by (relation "measure (\<lambda>x. case x of
        Inl (Inl (Inl (m, node, p))) \<Rightarrow> size node
      | Inl (Inl (Inr (m, nodes, p))) \<Rightarrow> size_list size nodes
      | Inl (Inr (Inl (m, nodes))) \<Rightarrow> size_list size nodes
      | Inl (Inr (Inr (m, i, nodes))) \<Rightarrow> size_list size nodes
      | Inr (Inl (Inl (m, i, nodes, p))) \<Rightarrow> size_list size nodes
      | Inr (Inl (Inr (m, j, ordered, nodes, p))) \<Rightarrow> size_list size nodes
      | Inr (Inr (Inl (m, nodes))) \<Rightarrow> size_list size nodes
      | Inr (Inr (Inr (Inl (m, nodes)))) \<Rightarrow> size_list size nodes
      | Inr (Inr (Inr (Inr (m, nodes)))) \<Rightarrow> size_list size nodes)")
    simp_all

text \<open>\<^verbatim>\<open>renderADF\<close> on a node that is not nil.\<close>

definition renderADF :: "(ADFNode \<Rightarrow> string option) \<Rightarrow> ADFNode \<Rightarrow> string option" where
  "renderADF marshal node = renderNode marshal node []"

section \<open>The preservation marker: decoding\<close>

text \<open>
  \<^verbatim>\<open>base64.StdEncoding.DecodeString\<close>. The decoder skips carriage returns and newlines,
  reads groups of four characters of the alphabet, accepts padding only at the end of
  the last group, and fails (\<open>None\<close>) on anything else. It is not strict: the unused low
  bits of a padded group are not checked.
\<close>

definition decodeMap :: "char \<Rightarrow> nat option" where
  "decodeMap c = (if c \<in> set encodeStd then Some (length (takeWhile (\<lambda>x. x \<noteq> c) encodeStd))
                  else None)"

fun decodeQuantum :: "string \<Rightarrow> string option" where
  "decodeQuantum [] = Some []"
| "decodeQuantum [a, b, c, d] =
     (if c = CHR ''='' \<and> d = CHR ''='' then
        do { x \<leftarrow> decodeMap a; y \<leftarrow> decodeMap b;
             Some [char_of (x * 4 + y div 16)] }
      else if d = CHR ''='' then
        do { x \<leftarrow> decodeMap a; y \<leftarrow> decodeMap b; z \<leftarrow> decodeMap c;
             Some [char_of (x * 4 + y div 16), char_of ((y mod 16) * 16 + z div 4)] }
      else
        do { x \<leftarrow> decodeMap a; y \<leftarrow> decodeMap b; z \<leftarrow> decodeMap c; w \<leftarrow> decodeMap d;
             Some [char_of (x * 4 + y div 16), char_of ((y mod 16) * 16 + z div 4),
                   char_of ((z mod 4) * 64 + w)] })"
| "decodeQuantum (a # b # c # d # src) =
     do { x \<leftarrow> decodeMap a; y \<leftarrow> decodeMap b; z \<leftarrow> decodeMap c; w \<leftarrow> decodeMap d;
          rest \<leftarrow> decodeQuantum src;
          Some ([char_of (x * 4 + y div 16), char_of ((y mod 16) * 16 + z div 4),
                 char_of ((z mod 4) * 64 + w)] @ rest) }"
| "decodeQuantum src = None"

definition DecodeString :: "string \<Rightarrow> string option" where
  "DecodeString s = decodeQuantum (filter (\<lambda>c. c \<noteq> CR \<and> c \<noteq> NL) s)"

text \<open>
  \<^verbatim>\<open>parsePreservedMarker\<close>. \<^verbatim>\<open>json.Unmarshal\<close> into an \<^verbatim>\<open>ADFNode\<close> is the parameter
  \<open>unmarshal\<close>, \<open>None\<close> when it returns an error. The result is the node (\<open>None\<close> for
  \<^verbatim>\<open>nil\<close>) and the index of the next line.
\<close>

definition parsePreservedMarker ::
  "(string \<Rightarrow> ADFNode option) \<Rightarrow> string list \<Rightarrow> nat \<Rightarrow> ADFNode option \<times> nat" where
  "parsePreservedMarker unmarshal lines startIdx =
     (if length lines \<le> startIdx + 2 then (None, startIdx + 1)
      else
        let dataLine = TrimSpace (lines ! (startIdx + 1));
            closeLine = TrimSpace (lines ! (startIdx + 2))
        in
        if \<not> HasPrefix dataLine preserveData \<or> closeLine \<noteq> preserveEnd
        then (None, startIdx + 1)
        else
          let encoded = TrimSpace (TrimSuffix (TrimPrefix dataLine preserveData) '' -->'') in
          case DecodeString encoded of
            None \<Rightarrow> (None, startIdx + 1)
          | Some decoded \<Rightarrow>
              (case unmarshal decoded of
                 None \<Rightarrow> (None, startIdx + 1)
               | Some node \<Rightarrow> (Some node, startIdx + 3)))"

section \<open>The reverse parser\<close>

definition parseHeading :: "string \<Rightarrow> nat \<times> string" where
  "parseHeading line =
     (if \<not> HasPrefix line ''#'' then (0, [])
      else
        let level = length (takeWhile (\<lambda>c. c = CHR ''#'') line) in
        if 6 < level then (0, [])
        else (level, TrimSpace (drop level line)))"

text \<open>
  The regular expressions of the list parser, all anchored at the start of the line.
  \<^verbatim>\<open>\s\<close> is tab, newline, form feed, carriage return or space, \<^verbatim>\<open>\d\<close> an ASCII
  digit. In \<^verbatim>\<open>^\d+\.\s\<close> the digits are the longest run, since a dot must follow. In
  \<^verbatim>\<open>^(\s{2,}|\t)[-*]\s\<close> and \<^verbatim>\<open>^(\s{2,}|\t)\d+\.\s\<close> the first alternative is the whole
  run of leading white space (of length two or more), since a character that is no white
  space must follow; the second alternative is one tab.
\<close>

definition reSpace :: "char \<Rightarrow> bool" where
  "reSpace c = (c \<in> set [CHR 0x09, CHR 0x0A, CHR 0x0C, CHR 0x0D, CHR 0x20])"

definition reDigit :: "char \<Rightarrow> bool" where
  "reDigit c = (c \<in> set ''0123456789'')"

text \<open>\<^verbatim>\<open>^[-*]\s\<close>, as \<^verbatim>\<open>FindStringIndex\<close>: the match is the first two bytes.\<close>

definition listRe :: "string \<Rightarrow> nat list option" where
  "listRe s =
     (case s of
        a # b # _ \<Rightarrow> if (a = CHR ''-'' \<or> a = CHR ''*'') \<and> reSpace b then Some [0, 2] else None
      | _ \<Rightarrow> None)"

text \<open>\<^verbatim>\<open>^\d+\.\s\<close>, as \<^verbatim>\<open>FindStringIndex\<close>.\<close>

definition ordRe :: "string \<Rightarrow> nat list option" where
  "ordRe s =
     (let n = length (takeWhile reDigit s) in
      case drop n s of
        a # b # _ \<Rightarrow> if 0 < n \<and> a = CHR ''.'' \<and> reSpace b then Some [0, n + 2] else None
      | _ \<Rightarrow> None)"

definition indentedBulletRe :: "string \<Rightarrow> bool" where
  "indentedBulletRe s =
     (let n = length (takeWhile reSpace s) in
      (2 \<le> n \<and> listRe (drop n s) \<noteq> None) \<or>
      (HasPrefix s [TAB] \<and> listRe (drop 1 s) \<noteq> None))"

definition indentedOrdRe :: "string \<Rightarrow> bool" where
  "indentedOrdRe s =
     (let n = length (takeWhile reSpace s) in
      (2 \<le> n \<and> ordRe (drop n s) \<noteq> None) \<or>
      (HasPrefix s [TAB] \<and> ordRe (drop 1 s) \<noteq> None))"

text \<open>
  A loop \<^verbatim>\<open>for i < len(lines) && cond(lines[i]) { ...; i++ }\<close> visits the longest run of
  lines from \<open>i\<close> on that satisfy the condition.
\<close>

definition linesWhile :: "(string \<Rightarrow> bool) \<Rightarrow> string list \<Rightarrow> nat \<Rightarrow> string list" where
  "linesWhile cond lines i = takeWhile cond (drop i lines)"

lemma length_linesWhile: "i + length (linesWhile cond lines i) \<le> max i (length lines)"
  unfolding linesWhile_def
  using length_takeWhile_le [of cond "drop i lines"] by simp

text \<open>
  \<^verbatim>\<open>parseList\<close>: the items and the index of the first line that is not consumed.
\<close>

function parseList :: "string list \<Rightarrow> nat \<Rightarrow> bool \<Rightarrow> ADFNode list \<times> nat" where
  "parseList lines i ordered =
     (if \<not> i < length lines then ([], i)
      else
        case (if ordered then ordRe (lines ! i) else listRe (lines ! i)) of
          None \<Rightarrow> ([], i)
        | Some loc \<Rightarrow>
            let para = ADFNode ''paragraph'' (parseInline (drop (loc ! 1) (lines ! i))) [] [] [];
                i1 = i + 1
            in
            if i1 < length lines \<and> indentedBulletRe (lines ! i1) then
              let sub = linesWhile indentedBulletRe lines i1;
                  subItems = fst (parseList (map (\<lambda>l. TrimLeft l [CHR '' '', TAB]) sub) 0 False);
                  item = ADFNode ''listItem''
                           [para, ADFNode ''bulletList'' subItems [] [] []] [] [] [];
                  r = parseList lines (i1 + length sub) ordered
              in (item # fst r, snd r)
            else if i1 < length lines \<and> indentedOrdRe (lines ! i1) then
              let sub = linesWhile indentedOrdRe lines i1;
                  subItems = fst (parseList (map (\<lambda>l. TrimLeft l [CHR '' '', TAB]) sub) 0 True);
                  item = ADFNode ''listItem''
                           [para, ADFNode ''orderedList'' subItems [] [] []] [] [] [];
                  r = parseList lines (i1 + length sub) ordered
              in (item # fst r, snd r)
            else
              let r = parseList lines i1 ordered
              in (ADFNode ''listItem'' [para] [] [] [] # fst r, snd r))"
  by pat_completeness auto
termination
proof (relation "measure (\<lambda>(lines, i, ordered). length lines - i)", goal_cases)
  case 1
  show ?case by simp
next
  case (2 lines i ordered x2 x xa xb)
  have "length (linesWhile indentedBulletRe lines (i + 1)) \<le> length lines - (i + 1)"
    unfolding linesWhile_def using length_takeWhile_le [of _ "drop (i + 1) lines"] by simp
  with 2 show ?case by auto
next
  case 3
  then show ?case by auto
next
  case (4 lines i ordered x2 x xa xb)
  have "length (linesWhile indentedOrdRe lines (i + 1)) \<le> length lines - (i + 1)"
    unfolding linesWhile_def using length_takeWhile_le [of _ "drop (i + 1) lines"] by simp
  with 4 show ?case by auto
next
  case 5
  then show ?case by auto
next
  case 6
  then show ?case by auto
qed

declare parseList.simps [simp del]

definition splitTableRow :: "string \<Rightarrow> string list" where
  "splitTableRow line =
     map TrimSpace (Split (TrimSuffix (TrimPrefix (TrimSpace line) ''|'') ''|'') (CHR ''|''))"

definition buildTableRow :: "string list \<Rightarrow> bool \<Rightarrow> ADFNode" where
  "buildTableRow cells isHeader =
     (let cellType = (if isHeader then ''tableHeader'' else ''tableCell'') in
      ADFNode ''tableRow''
        (map (\<lambda>text. ADFNode cellType
                        [ADFNode ''paragraph'' (parseInline text) [] [] []] [] [] [])
             cells)
        [] [] [])"

text \<open>The test of \<^verbatim>\<open>parseMarkdownTable\<close> on the second line of the block.\<close>

definition isSeparator :: "string \<Rightarrow> bool" where
  "isSeparator line =
     list_all (\<lambda>cell. Trim (TrimSpace cell) '':-'' = []) (splitTableRow line)"

definition parseMarkdownTable :: "string list \<Rightarrow> nat \<Rightarrow> ADFNode option \<times> nat" where
  "parseMarkdownTable lines i =
     (let block = linesWhile (\<lambda>l. HasPrefix (TrimSpace l) ''|'') lines i;
          tableLines = map TrimSpace block
      in
      if length tableLines < 2 then (None, i + 1)
      else
        let rows =
              (if isSeparator (tableLines ! 1) then
                 buildTableRow (splitTableRow (tableLines ! 0)) True #
                 map (\<lambda>line. buildTableRow (splitTableRow line) False) (drop 2 tableLines)
               else
                 map (\<lambda>line. buildTableRow (splitTableRow line) False) tableLines)
        in
        (Some (ADFNode ''table'' rows []
                 [(''isNumberColumnEnabled'', ABool False), (''layout'', AString ''default'')]
                 []),
         i + length block))"

text \<open>The conditions under which the paragraph loop of \<^verbatim>\<open>markdownToADF\<close> stops.\<close>

definition paraBreak :: "string \<Rightarrow> bool" where
  "paraBreak l =
     (let trimmed = TrimSpace l in
      trimmed = [] \<or>
      HasPrefix l ''#'' \<or> HasPrefix l ''```'' \<or> HasPrefix l ''> '' \<or> HasPrefix l ''- '' \<or>
      HasPrefix l ''* '' \<or> trimmed = ''---'' \<or> trimmed = ''***'' \<or>
      HasPrefix trimmed preserveStart \<or>
      HasPrefix trimmed ''|'' \<or>
      ordRe l \<noteq> None)"

text \<open>
  The main loop of \<^verbatim>\<open>markdownToADF\<close>: \<open>lines\<close> and the index \<open>i\<close>, and \<open>doc\<close> for
  \<^verbatim>\<open>doc.Content\<close>. The loop has no bound of its own, so it is a partial function: \<open>None\<close>
  is the loop that never ends. A block quote calls \<^verbatim>\<open>markdownToADF\<close> on the quoted text,
  which is this loop on the lines of that text.
\<close>

partial_function (option) mdLoop ::
  "(string \<Rightarrow> ADFNode option) \<Rightarrow> string list \<Rightarrow> nat \<Rightarrow> ADFNode list \<Rightarrow> ADFNode list option"
where
  "mdLoop unmarshal lines i doc =
     (if \<not> i < length lines then Some doc
      else
        let line = lines ! i in
        if TrimSpace line = [] then mdLoop unmarshal lines (i + 1) doc
        else if HasPrefix (TrimSpace line) preserveStart \<and>
                fst (parsePreservedMarker unmarshal lines i) \<noteq> None then
          (case parsePreservedMarker unmarshal lines i of
             (Some node, endI) \<Rightarrow> mdLoop unmarshal lines endI (doc @ [node])
           | (None, endI) \<Rightarrow> None)
        else if TrimSpace line = ''---'' \<or> TrimSpace line = ''***'' \<or> TrimSpace line = ''___'' then
          mdLoop unmarshal lines (i + 1) (doc @ [ADFNode ''rule'' [] [] [] []])
        else if 0 < fst (parseHeading line) then
          mdLoop unmarshal lines (i + 1)
            (doc @ [ADFNode ''heading'' (parseInline (snd (parseHeading line))) []
                      [(''level'', AInt (int (fst (parseHeading line))))] []])
        else if HasPrefix (TrimSpace line) ''```'' then
          let lang = TrimSpace (TrimPrefix (TrimSpace line) ''```'');
              codeLines = linesWhile (\<lambda>l. TrimSpace l \<noteq> ''```'') lines (i + 1);
              j = i + 1 + length codeLines;
              node = ADFNode ''codeBlock''
                       [ADFNode ''text'' [] (Join codeLines [NL]) [] []] []
                       (if lang \<noteq> [] then [(''language'', AString lang)] else []) []
          in mdLoop unmarshal lines (if j < length lines then j + 1 else j) (doc @ [node])
        else if HasPrefix line ''> '' \<or> line = ''>'' then
          let quoted = linesWhile (\<lambda>l. HasPrefix l ''> '' \<or> TrimSpace l = ''>'') lines i;
              quoteLines = map (\<lambda>l. TrimPrefix (TrimPrefix l ''> '') ''>'') quoted
          in do {
            inner \<leftarrow> mdLoop unmarshal (Split (Join quoteLines [NL]) NL) 0 [];
            mdLoop unmarshal lines (i + length quoted)
              (doc @ [ADFNode ''blockquote'' inner [] [] []])
          }
        else if HasPrefix line ''- '' \<or> HasPrefix line ''* '' then
          mdLoop unmarshal lines (snd (parseList lines i False))
            (doc @ [ADFNode ''bulletList'' (fst (parseList lines i False)) [] [] []])
        else if ordRe line \<noteq> None then
          mdLoop unmarshal lines (snd (parseList lines i True))
            (doc @ [ADFNode ''orderedList'' (fst (parseList lines i True)) [] [] []])
        else if HasPrefix (TrimSpace line) ''|'' \<and> fst (parseMarkdownTable lines i) \<noteq> None then
          (case parseMarkdownTable lines i of
             (Some tableNode, newI) \<Rightarrow> mdLoop unmarshal lines newI (doc @ [tableNode])
           | (None, newI) \<Rightarrow> None)
        else
          let paraLines = linesWhile (\<lambda>l. \<not> paraBreak l) lines i in
          mdLoop unmarshal lines (i + length paraLines)
            (if paraLines \<noteq> []
             then doc @ [ADFNode ''paragraph'' (parseInline (Join paraLines '' '')) [] [] []]
             else doc))"

declare mdLoop.simps [code]

text \<open>
  \<^verbatim>\<open>markdownToADF\<close>: the document node around the content that the loop collects. Its
  error result is always \<^verbatim>\<open>nil\<close>; \<open>None\<close> means that the call does not return.
\<close>

definition markdownToADF :: "(string \<Rightarrow> ADFNode option) \<Rightarrow> string \<Rightarrow> ADFNode option" where
  "markdownToADF unmarshal md =
     map_option (\<lambda>content. ADFNode ''doc'' content [] [(''version'', AInt 1)] [])
       (mdLoop unmarshal (Split md NL) 0 [])"

section \<open>Names and samples used in the statements\<close>

text \<open>The mark that each entry of \<^verbatim>\<open>patterns\<close> puts on its text node, in the order of the slice.\<close>

definition markNames :: "string list" where
  "markNames = [''link'', ''strong'', ''strike'', ''code'', ''em'']"

text \<open>
  \<^verbatim>\<open>json.Marshal\<close> and \<^verbatim>\<open>json.Unmarshal\<close> at the one node that the closed examples
  serialize: \<^verbatim>\<open>ADFNode{Type: "mediaSingle"}\<close> is written as \<^verbatim>\<open>{"type":"mediaSingle"}\<close> (the
  other fields are \<^verbatim>\<open>omitempty\<close>) and read back from that text. The examples call the two
  functions on nothing else.
\<close>

definition sampleNode :: ADFNode where
  "sampleNode = ADFNode ''mediaSingle'' [] [] [] []"

definition sampleJSON :: string where
  "sampleJSON =
     [CHR ''{'', CHR 0x22] @ ''type'' @ [CHR 0x22, CHR '':'', CHR 0x22] @ ''mediaSingle'' @
     [CHR 0x22, CHR ''}'']"

definition sampleMarshal :: "ADFNode \<Rightarrow> string option" where
  "sampleMarshal node = (if node = sampleNode then Some sampleJSON else None)"

definition sampleUnmarshal :: "string \<Rightarrow> ADFNode option" where
  "sampleUnmarshal bytes = (if bytes = sampleJSON then Some sampleNode else None)"

section \<open>Lines of a text\<close>

lemma Split_Nil [simp]: "Split [] sep = [[]]"
  by (simp add: Split.simps)








lemma takeWhile_stop:
  "stop \<notin> set t \<Longrightarrow> takeWhile (\<lambda>c. c \<noteq> stop) (t @ stop # r) = t"
  by (induction t) auto

lemma dropWhile_stop:
  "stop \<notin> set t \<Longrightarrow> dropWhile (\<lambda>c. c \<noteq> stop) (t @ stop # r) = stop # r"
  by (induction t) auto

section \<open>The main loop of the parser\<close>

text \<open>
  A line on which one pass of the main loop changes neither the index nor the content:
  no branch before the paragraph takes the line, and the paragraph loop stops on it at
  once, so that \<^verbatim>\<open>paraLines\<close> is empty and \<^verbatim>\<open>i\<close> is not advanced.
\<close>

definition stuck :: "(string \<Rightarrow> ADFNode option) \<Rightarrow> string list \<Rightarrow> nat \<Rightarrow> bool" where
  "stuck unmarshal lines i =
     (i < length lines \<and>
      (let line = lines ! i in
       TrimSpace line \<noteq> [] \<and>
       \<not> (HasPrefix (TrimSpace line) preserveStart \<and>
          fst (parsePreservedMarker unmarshal lines i) \<noteq> None) \<and>
       \<not> (TrimSpace line = ''---'' \<or> TrimSpace line = ''***'' \<or> TrimSpace line = ''___'') \<and>
       \<not> 0 < fst (parseHeading line) \<and>
       \<not> HasPrefix (TrimSpace line) ''```'' \<and>
       \<not> (HasPrefix line ''> '' \<or> line = ''>'') \<and>
       \<not> (HasPrefix line ''- '' \<or> HasPrefix line ''* '') \<and>
       ordRe line = None \<and>
       \<not> (HasPrefix (TrimSpace line) ''|'' \<and> fst (parseMarkdownTable lines i) \<noteq> None) \<and>
       paraBreak line))"

lemma linesWhile_stuck: "i < length lines \<Longrightarrow> \<not> cond (lines ! i) \<Longrightarrow> linesWhile cond lines i = []"
  by (simp add: linesWhile_def takeWhile_eq_Nil_iff hd_drop_conv_nth)

lemma mdLoop_Some_not_stuck:
  assumes ret: "mdLoop unmarshal0 lines0 i0 doc0 = Some y0"
  shows "\<not> stuck unmarshal0 lines0 i0"
proof (rule mdLoop.raw_induct [where P = "\<lambda>u l j d r. \<not> stuck u l j", OF _ ret],
    goal_cases)
  case (1 loop unmarshal lines i doc y)
  show ?case
  proof
    assume s: "stuck unmarshal lines i"
    then have i: "i < length lines" and pb: "paraBreak (lines ! i)"
      by (simp_all add: stuck_def Let_def)
    have pl: "linesWhile (\<lambda>l. \<not> paraBreak l) lines i = []"
      using i pb by (simp add: linesWhile_stuck)
    from s have c:
      "TrimSpace (lines ! i) \<noteq> []"
      "\<not> (HasPrefix (TrimSpace (lines ! i)) preserveStart \<and>
        fst (parsePreservedMarker unmarshal lines i) \<noteq> None)"
      "\<not> (TrimSpace (lines ! i) = ''---'' \<or> TrimSpace (lines ! i) = ''***'' \<or>
          TrimSpace (lines ! i) = ''___'')"
      "\<not> 0 < fst (parseHeading (lines ! i))"
      "\<not> HasPrefix (TrimSpace (lines ! i)) ''```''"
      "\<not> (HasPrefix (lines ! i) ''> '' \<or> lines ! i = ''>'')"
      "\<not> (HasPrefix (lines ! i) ''- '' \<or> HasPrefix (lines ! i) ''* '')"
      "ordRe (lines ! i) = None"
      "\<not> (HasPrefix (TrimSpace (lines ! i)) ''|'' \<and>
        fst (parseMarkdownTable lines i) \<noteq> None)"
      unfolding stuck_def Let_def by blast+
    have "loop unmarshal lines i doc = Some y"
      using 1(2) i unfolding Let_def if_not_P [OF c(1)] if_not_P [OF c(2)]
        if_not_P [OF c(3)] if_not_P [OF c(4)] if_not_P [OF c(5)] if_not_P [OF c(6)]
        if_not_P [OF c(7)] if_not_P [OF c(9)] pl
      by (simp add: c(8))
    from 1(1) [OF this] s show False by simp
  qed
qed

lemma mdLoop_stuck:
  assumes "stuck unmarshal lines i"
  shows "mdLoop unmarshal lines i doc = None"
proof (rule ccontr)
  assume "mdLoop unmarshal lines i doc \<noteq> None"
  then obtain y where "mdLoop unmarshal lines i doc = Some y" by auto
  from mdLoop_Some_not_stuck [OF this] assms show False by simp
qed

lemma stuck_pipe: "stuck unmarshal [''| a |''] 0"
  by code_simp

lemma stuck_hashes: "stuck unmarshal [''####### x''] 0"
  by code_simp

lemma stuck_marker:
  "stuck unmarshal [''<!-- PRESERVED: x -->'', ''hello'', ''<!-- /PRESERVED -->''] 0"
  by code_simp

text \<open>
  Claim C4 fails on the code: on each of the three texts below \<^verbatim>\<open>markdownToADF\<close> does
  not return, whatever \<^verbatim>\<open>json.Unmarshal\<close> does. The texts are a table of one line, a
  line of seven hash signs, and a marker block whose middle line lacks the data prefix.
\<close>

theorem markdownToADF_does_not_return:
  "markdownToADF unmarshal ''| a |'' = None \<and>
   markdownToADF unmarshal ''####### x'' = None \<and>
   markdownToADF unmarshal
     (''<!-- PRESERVED: x -->'' @ NL # ''hello'' @ NL # ''<!-- /PRESERVED -->'') = None"
proof -
  have 1: "Split ''| a |'' NL = [''| a |'']"
    by code_simp
  have 2: "Split ''####### x'' NL = [''####### x'']"
    by code_simp
  have 3: "Split (''<!-- PRESERVED: x -->'' @ NL # ''hello'' @ NL # ''<!-- /PRESERVED -->'') NL
    = [''<!-- PRESERVED: x -->'', ''hello'', ''<!-- /PRESERVED -->'']"
    by code_simp
  show ?thesis
    unfolding markdownToADF_def 1 2 3
    by (simp add: mdLoop_stuck [OF stuck_pipe] mdLoop_stuck [OF stuck_hashes]
        mdLoop_stuck [OF stuck_marker])
qed

section \<open>Nested lists\<close>

text \<open>
  Claim C7 fails on the code. The renderer prints a bullet list of three levels with an
  indentation that grows with each level. The parser takes all lines that are indented
  by two or more spaces as one sub-list and removes all their leading spaces, so the
  item of the third level comes back as an item of the second level.
\<close>

theorem parseList_flattens_third_level:
  "renderADF marshal
     (ADFNode ''doc''
       [ADFNode ''bulletList''
         [ADFNode ''listItem''
           [ADFNode ''paragraph'' [ADFNode ''text'' [] ''a'' [] []] [] [] [],
            ADFNode ''bulletList''
              [ADFNode ''listItem''
                [ADFNode ''paragraph'' [ADFNode ''text'' [] ''b'' [] []] [] [] [],
                 ADFNode ''bulletList''
                   [ADFNode ''listItem''
                     [ADFNode ''paragraph'' [ADFNode ''text'' [] ''c'' [] []] [] [] []]
                     [] [] []]
                   [] [] []]
                [] [] []]
              [] [] []]
           [] [] []]
         [] [] []]
       [] [(''version'', AInt 1)] [])
     = Some (''- a'' @ NL # ''  - b'' @ NL # ''    - c'' @ [NL]) \<and>
   markdownToADF unmarshal (''- a'' @ NL # ''  - b'' @ NL # ''    - c'' @ [NL])
     = Some
        (ADFNode ''doc''
          [ADFNode ''bulletList''
            [ADFNode ''listItem''
              [ADFNode ''paragraph'' [ADFNode ''text'' [] ''a'' [] []] [] [] [],
               ADFNode ''bulletList''
                 [ADFNode ''listItem''
                   [ADFNode ''paragraph'' [ADFNode ''text'' [] ''b'' [] []] [] [] []]
                   [] [] [],
                  ADFNode ''listItem''
                   [ADFNode ''paragraph'' [ADFNode ''text'' [] ''c'' [] []] [] [] []]
                   [] [] []]
                 [] [] []]
              [] [] []]
            [] [] []]
          [] [(''version'', AInt 1)] [])"
  by code_simp

section \<open>Properties of inline parsing\<close>

text \<open>
  The matcher of an opening literal, a group \<^verbatim>\<open>([^c]+)\<close> and a closing literal that
  starts with \<^verbatim>\<open>c\<close> succeeds exactly on the texts that start with the opening literal, a
  non-empty text without \<^verbatim>\<open>c\<close>, and the closing literal.
\<close>

lemma reDelimited_iff:
  assumes "cls \<noteq> []" "hd cls = stop"
  shows "reDelimited opn stop cls s \<noteq> None \<longleftrightarrow>
           (\<exists>t rest. s = opn @ t @ cls @ rest \<and> t \<noteq> [] \<and> stop \<notin> set t)"
proof
  assume "reDelimited opn stop cls s \<noteq> None"
  then have p: "prefix opn s" and n: "0 < runLen stop (drop (length opn) s)"
    and c: "prefix cls (drop (length opn + runLen stop (drop (length opn) s)) s)"
    by (auto simp: reDelimited_def Let_def split: if_splits)
  define s' where "s' = drop (length opn) s"
  define t where "t = takeWhile (\<lambda>c. c \<noteq> stop) s'"
  from p have s: "s = opn @ s'" by (auto simp: prefix_def s'_def)
  have t: "t \<noteq> []" "stop \<notin> set t"
    using n by (auto simp: t_def runLen_def s'_def dest: set_takeWhileD)
  have "drop (length opn + length t) s = dropWhile (\<lambda>c. c \<noteq> stop) s'"
    by (subst s) (simp add: t_def dropWhile_eq_drop)
  with c obtain rest where "dropWhile (\<lambda>c. c \<noteq> stop) s' = cls @ rest"
    by (auto simp: prefix_def runLen_def t_def s'_def)
  then have "s' = t @ cls @ rest"
    unfolding t_def by (metis takeWhile_dropWhile_id)
  with s t show "\<exists>t rest. s = opn @ t @ cls @ rest \<and> t \<noteq> [] \<and> stop \<notin> set t" by blast
next
  assume "\<exists>t rest. s = opn @ t @ cls @ rest \<and> t \<noteq> [] \<and> stop \<notin> set t"
  then obtain t rest where s: "s = opn @ t @ cls @ rest" and t: "t \<noteq> []" "stop \<notin> set t"
    by blast
  from assms obtain cls' where cls: "cls = stop # cls'" by (cases cls) auto
  have "takeWhile (\<lambda>c. c \<noteq> stop) (t @ cls @ rest) = t"
    using t(2) by (simp add: cls takeWhile_stop)
  then have r: "runLen stop (drop (length opn) s) = length t"
    by (simp add: runLen_def s)
  show "reDelimited opn stop cls s \<noteq> None"
    using t(1) by (simp add: reDelimited_def r Let_def) (simp add: s)
qed

lemma findFrom_matches:
  assumes "re (drop i s) = Some l" "i \<le> length s"
  shows "\<exists>loc j loc'. findFrom re s n = Some loc \<and> j \<le> i \<and> re (drop j s) = Some loc' \<and>
           loc = map ((+) (n + j)) loc'"
proof (cases "findFrom re s n")
  case None
  from findFrom_NoneD [OF None assms(2)] assms(1) show ?thesis by simp
next
  case (Some loc)
  from findFrom_SomeD [OF Some] obtain j loc' where j: "re (drop j s) = Some loc'"
    "loc = map ((+) (n + j)) loc'" "\<forall>j'<j. re (drop j' s) = None" by blast
  from j(3) assms(1) have "j \<le> i" by (metis not_le option.distinct(1))
  with Some j(1,2) show ?thesis by blast
qed

text \<open>What a successful search says about the matcher.\<close>

lemma Find_patterns_SomeD:
  assumes p: "p \<in> set patterns" and f: "FindStringSubmatchIndex (fst p) r = Some loc"
  shows "\<exists>loc0. fst p (drop (hd loc) r) = Some loc0 \<and> loc = map ((+) (hd loc)) loc0 \<and>
           (\<forall>i<hd loc. fst p (drop i r) = None) \<and> hd loc < length r"
proof -
  from findFrom_SomeD [OF f [unfolded FindStringSubmatchIndex_def]]
  obtain j loc' where j: "j \<le> length r" "fst p (drop j r) = Some loc'"
    "loc = map ((+) j) loc'" "\<forall>j'<j. fst p (drop j' r) = None" by auto
  from patterns_loc [OF p j(2)] have l: "2 \<le> length loc'" "hd loc' = 0" by simp_all
  then have "hd loc = j" using j(3) by (cases loc') auto
  moreover from Find_patterns_loc [OF p f] have "hd loc < length r" by simp
  ultimately show ?thesis using j by auto
qed

lemma Find_patterns_NoneD:
  assumes "FindStringSubmatchIndex (fst p) r = None" "i \<le> length r"
  shows "fst p (drop i r) = None"
  using findFrom_NoneD [OF assms(1) [unfolded FindStringSubmatchIndex_def] assms(2)] .

lemma Find_patterns_before:
  assumes p: "p \<in> set patterns" and m: "fst p (drop i r) \<noteq> None" and i: "i \<le> length r"
  shows "\<exists>loc. FindStringSubmatchIndex (fst p) r = Some loc \<and> hd loc \<le> i"
proof (cases "FindStringSubmatchIndex (fst p) r")
  case None
  from Find_patterns_NoneD [OF None i] m show ?thesis by simp
next
  case (Some loc)
  from Find_patterns_SomeD [OF p Some] have "\<forall>j<hd loc. fst p (drop j r) = None" by blast
  with m have "hd loc \<le> i" by (metis not_le)
  with Some show ?thesis by simp
qed

lemma scanPatterns_spec:
  assumes "scanPatterns r k ps (idx0, sel0) = (idx, sel)"
  shows "(sel = sel0 \<and> idx = idx0 \<and>
            (\<forall>q\<in>set ps. \<forall>loc. FindStringSubmatchIndex (fst q) r = Some loc \<longrightarrow>
               idx0 \<le> hd loc)) \<or>
         (\<exists>j loc. j < length ps \<and> sel = Some (k + j, loc) \<and>
            FindStringSubmatchIndex (fst (ps ! j)) r = Some loc \<and> hd loc = idx \<and> idx < idx0 \<and>
            (\<forall>q\<in>set (take j ps). \<forall>loc'. FindStringSubmatchIndex (fst q) r = Some loc' \<longrightarrow>
               idx < hd loc') \<and>
            (\<forall>q\<in>set ps. \<forall>loc'. FindStringSubmatchIndex (fst q) r = Some loc' \<longrightarrow>
               idx \<le> hd loc'))"
  using assms
proof (induction ps arbitrary: k idx0 sel0)
  case Nil
  then show ?case by simp
next
  case (Cons p ps)
  let ?F = "\<lambda>q. FindStringSubmatchIndex (fst q) r"
  show ?case
  proof (cases "\<exists>l. ?F p = Some l \<and> hd l < idx0")
    case True
    then obtain l where l: "?F p = Some l" "hd l < idx0" by blast
    with Cons.prems have "scanPatterns r (Suc k) ps (hd l, Some (k, l)) = (idx, sel)" by simp
    from Cons.IH [OF this] show ?thesis
    proof (elim disjE exE conjE)
      assume a: "sel = Some (k, l)" "idx = hd l"
        "\<forall>q\<in>set ps. \<forall>loc. ?F q = Some loc \<longrightarrow> hd l \<le> hd loc"
      with l show ?thesis
        by (intro disjI2 exI [of _ 0] exI [of _ l]) simp
    next
      fix j loc
      assume a: "j < length ps" "sel = Some (Suc k + j, loc)" "?F (ps ! j) = Some loc"
        "hd loc = idx" "idx < hd l"
        "\<forall>q\<in>set (take j ps). \<forall>loc'. ?F q = Some loc' \<longrightarrow> idx < hd loc'"
        "\<forall>q\<in>set ps. \<forall>loc'. ?F q = Some loc' \<longrightarrow> idx \<le> hd loc'"
      with l show ?thesis
        by (intro disjI2 exI [of _ "Suc j"] exI [of _ loc]) simp
    qed
  next
    case False
    then have no: "\<forall>l. ?F p = Some l \<longrightarrow> idx0 \<le> hd l" by (meson not_le)
    from False Cons.prems have "scanPatterns r (Suc k) ps (idx0, sel0) = (idx, sel)"
      by (auto split: option.splits if_splits)
    from Cons.IH [OF this] show ?thesis
    proof (elim disjE exE conjE)
      assume a: "sel = sel0" "idx = idx0"
        "\<forall>q\<in>set ps. \<forall>loc. ?F q = Some loc \<longrightarrow> idx0 \<le> hd loc"
      with no show ?thesis by simp
    next
      fix j loc
      assume a: "j < length ps" "sel = Some (Suc k + j, loc)" "?F (ps ! j) = Some loc"
        "hd loc = idx" "idx < idx0"
        "\<forall>q\<in>set (take j ps). \<forall>loc'. ?F q = Some loc' \<longrightarrow> idx < hd loc'"
        "\<forall>q\<in>set ps. \<forall>loc'. ?F q = Some loc' \<longrightarrow> idx \<le> hd loc'"
      from no a(5) have "\<forall>l. ?F p = Some l \<longrightarrow> idx < hd l" by (meson less_le_trans)
      with a show ?thesis
        by (intro disjI2 exI [of _ "Suc j"] exI [of _ loc]) (simp add: less_imp_le)
    qed
  qed
qed


lemma earliestMatch_Some:
  assumes "earliestMatch r = Some (k, loc)"
  shows "k < length patterns \<and>
         (\<exists>loc0. fst (patterns ! k) (drop (hd loc) r) = Some loc0 \<and> loc = map ((+) (hd loc)) loc0) \<and>
         (\<forall>p\<in>set patterns. \<forall>i<hd loc. fst p (drop i r) = None) \<and>
         (\<forall>j<k. fst (patterns ! j) (drop (hd loc) r) = None)"
proof -
  let ?F = "\<lambda>q. FindStringSubmatchIndex (fst q) r"
  obtain idx where sc: "scanPatterns r 0 patterns (length r, None) = (idx, Some (k, loc))"
    using assms unfolding earliestMatch_def by (metis prod.collapse)
  from scanPatterns_spec [OF sc]
  have k: "k < length patterns" and f: "?F (patterns ! k) = Some loc" and idx: "hd loc = idx"
    and before: "\<forall>q\<in>set (take k patterns). \<forall>loc'. ?F q = Some loc' \<longrightarrow> idx < hd loc'"
    and all: "\<forall>q\<in>set patterns. \<forall>loc'. ?F q = Some loc' \<longrightarrow> idx \<le> hd loc'"
    by auto
  have pk: "patterns ! k \<in> set patterns" using k by simp
  from Find_patterns_SomeD [OF pk f]
  have m: "\<exists>loc0. fst (patterns ! k) (drop (hd loc) r) = Some loc0 \<and> loc = map ((+) (hd loc)) loc0"
    and lt: "hd loc < length r" by blast+
  have left: "\<forall>p\<in>set patterns. \<forall>i<hd loc. fst p (drop i r) = None"
  proof (intro ballI allI impI, rule ccontr)
    fix p i assume p: "p \<in> set patterns" and i: "i < hd loc" and "fst p (drop i r) \<noteq> None"
    with lt Find_patterns_before [OF p this(3)] obtain loc'
      where l': "?F p = Some loc'" "hd loc' \<le> i" by auto
    from p all l' idx have "hd loc \<le> hd loc'" by auto
    with l'(2) i show False by simp
  qed
  have tie: "\<forall>j<k. fst (patterns ! j) (drop (hd loc) r) = None"
  proof (intro allI impI, rule ccontr)
    fix j assume j: "j < k" and "fst (patterns ! j) (drop (hd loc) r) \<noteq> None"
    moreover have pj: "patterns ! j \<in> set patterns" using j k by simp
    ultimately obtain loc' where l': "?F (patterns ! j) = Some loc'" "hd loc' \<le> hd loc"
      using Find_patterns_before [OF pj _ less_imp_le [OF lt]] by blast
    moreover have "patterns ! j \<in> set (take k patterns)"
      using j k by (auto simp: in_set_conv_nth intro!: exI [of _ j])
    ultimately show False using before idx by fastforce
  qed
  from k m left tie show ?thesis by blast
qed

lemma submatches4:
  "submatches r [a, b, c, d] = [take (b - a) (drop a r), take (d - c) (drop c r)]"
  by simp

lemma submatches6:
  "submatches r [a, b, c, d, e, f] =
     [take (b - a) (drop a r), take (d - c) (drop c r), take (f - e) (drop e r)]"
  by simp

lemma markFn_shape:
  assumes k: "k < length patterns" and m: "fst (patterns ! k) s = Some loc0"
    and loc: "loc = map ((+) i) loc0"
  shows "\<exists>mk. snd (patterns ! k) (submatches r loc) =
            [ADFNode ''text'' [] (take (loc ! 3 - loc ! 2) (drop (loc ! 2) r)) [] [mk]] \<and>
          MarkType mk = markNames ! k"
proof -
  from k have "k = 0 \<or> k = 1 \<or> k = 2 \<or> k = 3 \<or> k = 4"
    by (auto simp: patterns_def)
  then show ?thesis
  proof (elim disjE)
    assume k0: "k = 0"
    with m have "reLink s = Some loc0" by (simp add: patterns_def)
    from reLink_SomeD [OF this] obtain n m' where
      "loc0 = [0, n + m' + 4, 1, 1 + n, n + 3, n + 3 + m']" by blast
    with loc k0 show ?thesis by (simp add: patterns_def markNames_def)
  next
    assume k1: "k = 1"
    with m have "reDelimited ''**'' (CHR ''*'') ''**'' s = Some loc0" by (simp add: patterns_def)
    from reDelimited_SomeD [OF this] obtain n where
      "loc0 = [0, length ''**'' + n + length ''**'', length ''**'', length ''**'' + n]" by blast
    with loc k1 show ?thesis by (simp add: patterns_def markNames_def)
  next
    assume k2: "k = 2"
    with m have "reDelimited ''~~'' (CHR ''~'') ''~~'' s = Some loc0" by (simp add: patterns_def)
    from reDelimited_SomeD [OF this] obtain n where
      "loc0 = [0, length ''~~'' + n + length ''~~'', length ''~~'', length ''~~'' + n]" by blast
    with loc k2 show ?thesis by (simp add: patterns_def markNames_def)
  next
    assume k3: "k = 3"
    with m have "reDelimited ''`'' (CHR ''`'') ''`'' s = Some loc0" by (simp add: patterns_def)
    from reDelimited_SomeD [OF this] obtain n where
      "loc0 = [0, length ''`'' + n + length ''`'', length ''`'', length ''`'' + n]" by blast
    with loc k3 show ?thesis by (simp add: patterns_def markNames_def)
  next
    assume k4: "k = 4"
    with m have "reDelimited ''*'' (CHR ''*'') ''*'' s = Some loc0" by (simp add: patterns_def)
    from reDelimited_SomeD [OF this] obtain n where
      "loc0 = [0, length ''*'' + n + length ''*'', length ''*'', length ''*'' + n]" by blast
    with loc k4 show ?thesis by (simp add: patterns_def markNames_def)
  qed
qed

lemma inlineLoop_Some:
  assumes "remaining \<noteq> []" "earliestMatch remaining = Some (k, loc)"
  shows "inlineLoop remaining =
           (if 0 < hd loc then [ADFNode ''text'' [] (take (hd loc) remaining) [] []] else []) @
           snd (patterns ! k) (submatches remaining loc) @
           inlineLoop (drop (loc ! 1) remaining)"
  using assms by (subst inlineLoop.simps) simp

lemma inlineLoop_None:
  assumes "remaining \<noteq> []" "earliestMatch remaining = None"
  shows "inlineLoop remaining = [ADFNode ''text'' [] remaining [] []]"
  using assms by (subst inlineLoop.simps) simp





lemma inlineLoop_marks:
  "\<forall>n\<in>set (inlineLoop remaining). Type n = ''text'' \<and> (\<forall>mk\<in>set (Marks n). MarkType mk \<in> set markNames)"
proof (induction remaining rule: inlineLoop.induct)
  case (1 remaining)
  show ?case
  proof (cases "remaining = []")
    case True
    then show ?thesis by (subst inlineLoop.simps) simp
  next
    case False
    show ?thesis
    proof (cases "earliestMatch remaining")
      case None
      with False show ?thesis by (simp add: inlineLoop_None)
    next
      case (Some a)
      obtain k loc where a: "a = (k, loc)" by (cases a)
      note em = Some [unfolded a]
      from earliestMatch_Some [OF em] obtain loc0 where
        k: "k < length patterns"
        and m: "fst (patterns ! k) (drop (hd loc) remaining) = Some loc0"
        and loc: "loc = map ((+) (hd loc)) loc0" by blast
      from markFn_shape [OF k m loc, of remaining] obtain mk where
        mk: "snd (patterns ! k) (submatches remaining loc) =
              [ADFNode ''text'' [] (take (loc ! 3 - loc ! 2) (drop (loc ! 2) remaining)) [] [mk]]"
        "MarkType mk = markNames ! k" by blast
      have "length markNames = length patterns"
        by (simp add: patterns_def markNames_def)
      with k have "markNames ! k \<in> set markNames"
        by (metis nth_mem)
      with mk 1 [OF False Some a [symmetric]] show ?thesis
        by (subst inlineLoop_Some [OF False em]) auto
    qed
  qed
qed

lemma applyMarks_append:
  "applyMarks t (ms1 @ ms2) = applyMarks (applyMarks t ms1) ms2"
  by (induction ms1 arbitrary: t) simp_all

text \<open>
  Claim C10. A text node whose mark list holds an underline mark is rendered as follows:
  the text as the marks before the underline mark have wrapped it, between two single
  underscores, then wrapped by the marks after it; with the underline mark alone this is
  \<open>_text_\<close>. No node that \<^verbatim>\<open>parseInline\<close> returns carries an underline mark.
\<close>

theorem underline_rendered_not_parsed:
  "(MarkType m = ''underline'' \<longrightarrow>
      renderNode marshal (ADFNode ''text'' content text as (ms1 @ m # ms2)) listPrefix =
        Some (applyMarks (''_'' @ applyMarks text ms1 @ ''_'') ms2)) \<and>
   (MarkType m = ''underline'' \<longrightarrow>
      renderNode marshal (ADFNode ''text'' content text as [m]) listPrefix =
        Some (''_'' @ text @ ''_'')) \<and>
   (\<forall>n\<in>set (parseInline s). \<forall>mk\<in>set (Marks n). MarkType mk \<noteq> ''underline'')"
proof (intro conjI impI ballI)
  assume "MarkType m = ''underline''"
  then show "renderNode marshal (ADFNode ''text'' content text as (ms1 @ m # ms2)) listPrefix =
        Some (applyMarks (''_'' @ applyMarks text ms1 @ ''_'') ms2)"
    by (simp add: applyMarks_append)
next
  assume "MarkType m = ''underline''"
  then show "renderNode marshal (ADFNode ''text'' content text as [m]) listPrefix =
        Some (''_'' @ text @ ''_'')"
    by simp
next
  fix n mk assume n: "n \<in> set (parseInline s)" and mk: "mk \<in> set (Marks n)"
  have "MarkType mk \<in> set markNames"
  proof (cases "s = [] \<or> inlineLoop s = []")
    case True
    with n mk show ?thesis by (auto simp: parseInline_def Let_def split: if_splits)
  next
    case False
    with n have "n \<in> set (inlineLoop s)" by (simp add: parseInline_def Let_def)
    with inlineLoop_marks mk show ?thesis by blast
  qed
  then show "MarkType mk \<noteq> ''underline''" by (auto simp: markNames_def)
qed

theorem underline_rendered_not_parsed_witness:
  "renderNode sampleMarshal
     (ADFNode ''text'' [] ''x'' [] [ADFMark ''strong'' [], ADFMark ''underline'' []]) [] =
     Some ''_**x**_'' \<and>
   renderNode sampleMarshal (ADFNode ''text'' [] ''x'' [] [ADFMark ''underline'' []]) [] =
     Some ''_x_'' \<and>
   parseInline ''_x_'' = [ADFNode ''text'' [] ''_x_'' [] []] \<and>
   list_all (\<lambda>n. list_all (\<lambda>mk. MarkType mk \<noteq> ''underline'') (Marks n)) (parseInline ''_x_'')"
proof -
  note t = underline_rendered_not_parsed [of "ADFMark ''underline'' []" sampleMarshal "[]" "''x''"
      "[]" _ "[]" "[]" "''_x_''"]
  have 1: "renderNode sampleMarshal
     (ADFNode ''text'' [] ''x'' [] [ADFMark ''strong'' [], ADFMark ''underline'' []]) [] =
     Some ''_**x**_''"
    using underline_rendered_not_parsed [of "ADFMark ''underline'' []" sampleMarshal "[]" "''x''"
      "[]" "[ADFMark ''strong'' []]" "[]" "[]" "''_x_''"]
    by simp
  have 2: "renderNode sampleMarshal (ADFNode ''text'' [] ''x'' [] [ADFMark ''underline'' []]) [] =
     Some ''_x_''"
    using t by simp
  have 3: "parseInline ''_x_'' = [ADFNode ''text'' [] ''_x_'' [] []]" by code_simp
  have 4: "list_all (\<lambda>n. list_all (\<lambda>mk. MarkType mk \<noteq> ''underline'') (Marks n))
      (parseInline ''_x_'')"
    using t by (simp add: list_all_iff)
  from 1 2 3 4 show ?thesis by blast
qed

section \<open>Properties of the frontmatter splitter\<close>









end
